theory Spec2Isabelle
  imports Complex_Main "HOL-Library.Sublist"
begin

section \<open>QVM long-only strategy: universe, ranks, selection, rebalancing\<close>

text \<open>
  The strategy of \<^verbatim>\<open>QVM_Long_Only.py\<close>. A pipeline term of the source is a column over
  the day's securities; here a column is a list aligned with the input table, one entry
  per row. A numeric entry is \<open>real option\<close>: \<open>None\<close> is the platform's missing value
  (NaN), and every comparison with a missing value is false, every sum with one missing.
  The values that are present are read as real numbers: the ranks depend on their order
  only, and a rank is a multiple of one half, so that the sums of ranks are exact.
\<close>

subsection \<open>Data model\<close>

record equity =
  sid :: nat
  symbol :: string

record security_record =
  asset :: equity
  market_cap :: "real option"
  close_price :: "real option"
  dollar_volume_20 :: "real option"
  exchange_id :: "string option"
  roe :: "real option"
  fcf_yield :: "real option"
  fcf_per_share :: "real option"
  ret_20 :: "real option"

text \<open>The result of a floating-point division, which never raises in a pipeline expression.\<close>

datatype quotient = Finite real | Pos_Inf | Neg_Inf | Nan

subsection \<open>Column operations of the pipeline expressions\<close>

definition col_gt :: "real option list \<Rightarrow> real \<Rightarrow> bool list" where
  "col_gt col c = map (\<lambda>v. case v of None \<Rightarrow> False | Some x \<Rightarrow> c < x) col"

definition col_and :: "bool list \<Rightarrow> bool list \<Rightarrow> bool list" where
  "col_and a b = map2 (\<and>) a b"

definition col_not :: "bool list \<Rightarrow> bool list" where
  "col_not a = map Not a"

text \<open>Python's \<^verbatim>\<open>str.startswith\<close>: the second argument is the prefix looked for.\<close>

fun startswith :: "string \<Rightarrow> string \<Rightarrow> bool" where
  "startswith s [] = True"
| "startswith [] (p # ps) = False"
| "startswith (c # cs) (p # ps) = (c = p \<and> startswith cs ps)"

text \<open>
  On a column of strings the predicate is applied to the values that are present;
  a missing string gives False.
\<close>

definition col_startswith :: "string option list \<Rightarrow> string \<Rightarrow> bool list" where
  "col_startswith col p = map (\<lambda>v. case v of None \<Rightarrow> False | Some s \<Rightarrow> startswith s p) col"

fun add_opt :: "real option \<Rightarrow> real option \<Rightarrow> real option" where
  "add_opt (Some x) (Some y) = Some (x + y)"
| "add_opt _ _ = None"

definition col_add :: "real option list \<Rightarrow> real option list \<Rightarrow> real option list" where
  "col_add a b = map2 add_opt a b"

fun div_opt :: "real option \<Rightarrow> real option \<Rightarrow> quotient" where
  "div_opt (Some x) (Some y) =
     (if y \<noteq> 0 then Finite (x / y)
      else if 0 < x then Pos_Inf else if x < 0 then Neg_Inf else Nan)"
| "div_opt _ _ = Nan"

definition col_div :: "real option list \<Rightarrow> real option list \<Rightarrow> quotient list" where
  "col_div a b = map2 div_opt a b"

subsection \<open>The universe screen\<close>

text \<open>
  \<^verbatim>\<open>min_liq_univ\<close> with its three thresholds and the excluded exchange prefix taken as
  arguments; the source fixes them to 50000000, 1, 200000 and \<^verbatim>\<open>'OTC'\<close>.
\<close>

definition liq_univ :: "real \<Rightarrow> real \<Rightarrow> real \<Rightarrow> string \<Rightarrow> security_record list \<Rightarrow> bool list" where
  "liq_univ min_cap min_price min_volume otc tbl =
     (let mktcap = map market_cap tbl;
          mktcap_screen = col_gt mktcap min_cap;
          price_close = map close_price tbl;
          price_screen = col_gt price_close min_price;
          dollar_volume = map dollar_volume_20 tbl;
          volume_screen = col_gt dollar_volume min_volume;
          not_otc = col_not (col_startswith (map exchange_id tbl) otc)
      in col_and (col_and (col_and mktcap_screen price_screen) volume_screen) not_otc)"

definition min_liq_univ :: "security_record list \<Rightarrow> bool list" where
  "min_liq_univ tbl = liq_univ 50000000 1 200000 ''OTC'' tbl"

text \<open>The screen of one row, as the conjunction the column expression computes.\<close>

definition passes :: "real \<Rightarrow> real \<Rightarrow> real \<Rightarrow> string \<Rightarrow> security_record \<Rightarrow> bool" where
  "passes min_cap min_price min_volume otc r =
     ((\<exists>m. market_cap r = Some m \<and> min_cap < m) \<and>
      (\<exists>p. close_price r = Some p \<and> min_price < p) \<and>
      (\<exists>v. dollar_volume_20 r = Some v \<and> min_volume < v) \<and>
      \<not> (\<exists>e. exchange_id r = Some e \<and> prefix otc e))"

subsection \<open>Ranking\<close>

text \<open>A value outside the mask is treated as missing.\<close>

definition masked :: "real option list \<Rightarrow> bool list \<Rightarrow> real option list" where
  "masked vals msk = map2 (\<lambda>v m. if m then v else None) vals msk"

fun present :: "real option list \<Rightarrow> real list" where
  "present [] = []"
| "present (None # vs) = present vs"
| "present (Some x # vs) = x # present vs"

text \<open>
  Modelled from the spec: the platform's \<^verbatim>\<open>Factor.rank(method='average', mask=...)\<close>
  is not part of the source file. Section 4.3: only the securities in the mask with a
  value take part; rank 1 is the lowest value; tied values receive the arithmetic mean of
  the ordinal ranks they jointly occupy. The ordinal ranks a value occupies are its
  1-based positions in the ascending sort of the participants' values.
\<close>

definition ordinal_positions :: "real list \<Rightarrow> real \<Rightarrow> nat list" where
  "ordinal_positions xs x = filter (\<lambda>p. sort xs ! (p - 1) = x) [1..<Suc (length xs)]"

definition average_rank :: "real list \<Rightarrow> real \<Rightarrow> real" where
  "average_rank xs x =
     real (sum_list (ordinal_positions xs x)) / real (length (ordinal_positions xs x))"

definition rank_average :: "real option list \<Rightarrow> bool list \<Rightarrow> real option list" where
  "rank_average vals msk =
     (let col = masked vals msk
      in map (\<lambda>v. case v of None \<Rightarrow> None
                   | Some x \<Rightarrow> Some (average_rank (present col) x)) col)"

text \<open>The rows tied on the value \<open>x\<close>: the participants whose value is \<open>x\<close>.\<close>

definition tie_group :: "real option list \<Rightarrow> bool list \<Rightarrow> real \<Rightarrow> nat list" where
  "tie_group vals msk x = filter (\<lambda>j. msk ! j \<and> vals ! j = Some x) [0..<length vals]"

text \<open>
  Modelled from the spec: the platform's \<^verbatim>\<open>Factor.top(N, mask=...)\<close> is not part of
  the source file. Section 4.5: the N members of the mask with the highest value, ties
  at the boundary broken by a stable secondary key. The platform ranks descending and
  ordinally, earlier rows first among equal values, leaves the rows without a value
  unranked, and keeps the rows of rank at most N.
\<close>

definition rank_ordinal_desc :: "real option list \<Rightarrow> bool list \<Rightarrow> nat option list" where
  "rank_ordinal_desc vals msk =
     (let col = masked vals msk;
          idx = filter (\<lambda>i. col ! i \<noteq> None) [0..<length col];
          order = sort_key (\<lambda>i. - the (col ! i)) idx
      in map (\<lambda>i. if col ! i = None then None
                   else Some (Suc (length (takeWhile (\<lambda>j. j \<noteq> i) order))))
           [0..<length col])"

definition factor_top :: "nat \<Rightarrow> real option list \<Rightarrow> bool list \<Rightarrow> bool list" where
  "factor_top n vals msk =
     map (\<lambda>r. case r of None \<Rightarrow> False | Some k \<Rightarrow> k \<le> n) (rank_ordinal_desc vals msk)"

subsection \<open>The pipeline\<close>

record pipeline_columns =
  col_mktcap :: "real option list"
  col_fcf_yield :: "real option list"
  col_fcf_yield_manual :: "quotient list"
  col_roe :: "real option list"
  col_ret_20 :: "real option list"
  col_quality :: "real option list"
  col_value :: "real option list"
  col_momentum :: "real option list"
  col_qvm :: "real option list"
  col_long_10 :: "bool list"
  screen :: "bool list"

text \<open>
  \<^verbatim>\<open>make_pipeline\<close>. The quantile, decile and bottom-10 terms of the source are bound
  to local names only and are no column of the pipeline, so they are not computed.
\<close>

definition make_pipeline :: "security_record list \<Rightarrow> pipeline_columns" where
  "make_pipeline tbl =
     (let mktcap = map market_cap tbl;
          price_close = map close_price tbl;
          roe_c = map roe tbl;
          fcf_yield_c = map fcf_yield tbl;
          ret_20_c = map ret_20 tbl;
          fcf_per_share_c = map fcf_per_share tbl;
          fcf_yield_manual = col_div fcf_per_share_c price_close;
          quality = rank_average roe_c (min_liq_univ tbl);
          val = rank_average fcf_yield_c (min_liq_univ tbl);
          momentum = rank_average ret_20_c (min_liq_univ tbl);
          qvm = rank_average (col_add (col_add quality val) momentum) (min_liq_univ tbl);
          long_10 = factor_top 10 qvm (min_liq_univ tbl)
      in \<lparr> col_mktcap = mktcap, col_fcf_yield = fcf_yield_c,
           col_fcf_yield_manual = fcf_yield_manual, col_roe = roe_c, col_ret_20 = ret_20_c,
           col_quality = quality, col_value = val, col_momentum = momentum,
           col_qvm = qvm, col_long_10 = long_10, screen = min_liq_univ tbl \<rparr>)"

text \<open>
  \<^verbatim>\<open>before_trading_start\<close>: the pipeline's output holds the rows that pass the screen;
  \<^verbatim>\<open>context.longs\<close> is the index of the output rows whose \<^verbatim>\<open>long_10\<close> is true.
\<close>

definition output_rows :: "security_record list \<Rightarrow> nat list" where
  "output_rows tbl = filter (\<lambda>i. screen (make_pipeline tbl) ! i) [0..<length tbl]"

definition security_list :: "security_record list \<Rightarrow> equity list" where
  "security_list tbl = map (\<lambda>i. asset (tbl ! i)) (output_rows tbl)"

definition long_rows :: "security_record list \<Rightarrow> nat list" where
  "long_rows tbl = filter (\<lambda>i. col_long_10 (make_pipeline tbl) ! i) (output_rows tbl)"

definition longs :: "security_record list \<Rightarrow> equity list" where
  "longs tbl = map (\<lambda>i. asset (tbl ! i)) (long_rows tbl)"

text \<open>The sum \<^verbatim>\<open>quality + value + momentum\<close> of the source, before it is ranked again.\<close>

definition composite_raw :: "security_record list \<Rightarrow> real option list" where
  "composite_raw tbl =
     col_add (col_add (col_quality (make_pipeline tbl)) (col_value (make_pipeline tbl)))
       (col_momentum (make_pipeline tbl))"

text \<open>
  The rows of the mask whose three base factors are all present, and the rows with a
  value in the order in which the descending ordinal ranking visits them.
\<close>

definition rankable_rows :: "security_record list \<Rightarrow> nat list" where
  "rankable_rows tbl =
     filter (\<lambda>i. min_liq_univ tbl ! i \<and> roe (tbl ! i) \<noteq> None \<and>
                 fcf_yield (tbl ! i) \<noteq> None \<and> ret_20 (tbl ! i) \<noteq> None) [0..<length tbl]"

definition top_order :: "real option list \<Rightarrow> nat list" where
  "top_order col = sort_key (\<lambda>i. - the (col ! i)) (filter (\<lambda>i. col ! i \<noteq> None) [0..<length col])"

subsection \<open>Rebalancing\<close>

text \<open>
  The positions are read as an association list from security to the weight it is held
  at, in the dictionary's iteration order. An order is the security and its target
  weight, as passed to \<^verbatim>\<open>order_target_percent\<close>.
\<close>

type_synonym positions = "(equity \<times> real) list"

datatype log_line =
    Opening_long_positions real string
  | Didnt_open equity
  | Closing_positions string

record trading =
  orders :: "(equity \<times> real) list"
  infos :: "log_line list"

definition order_target_percent :: "equity \<Rightarrow> real \<Rightarrow> trading \<Rightarrow> trading" where
  "order_target_percent s w st = st\<lparr>orders := orders st @ [(s, w)]\<rparr>"

definition log_info :: "log_line \<Rightarrow> trading \<Rightarrow> trading" where
  "log_info l st = st\<lparr>infos := infos st @ [l]\<rparr>"

fun join :: "string \<Rightarrow> string list \<Rightarrow> string" where
  "join sep [] = []"
| "join sep [x] = x"
| "join sep (x # y # ys) = x @ sep @ join sep (y # ys)"

definition held :: "positions \<Rightarrow> equity \<Rightarrow> bool" where
  "held my_positions s = (s \<in> set (map fst my_positions))"

definition long_weight :: real where
  "long_weight = 0.1"

primrec open_longs :: "positions \<Rightarrow> (equity \<Rightarrow> bool) \<Rightarrow> equity list \<Rightarrow> trading \<Rightarrow> trading" where
  "open_longs my_positions can_trade [] st = st"
| "open_longs my_positions can_trade (security # rest) st =
     open_longs my_positions can_trade rest
       (if can_trade security then
          (if \<not> held my_positions security
           then order_target_percent security long_weight st
           else log_info (Didnt_open security) st)
        else st)"

text \<open>The second loop; the accumulator pairs the state with \<^verbatim>\<open>closed_positions\<close>.\<close>

primrec close_positions ::
  "equity list \<Rightarrow> (equity \<Rightarrow> bool) \<Rightarrow> equity list \<Rightarrow> trading \<times> equity list \<Rightarrow> trading \<times> equity list" where
  "close_positions context_longs can_trade [] acc = acc"
| "close_positions context_longs can_trade (security # rest) acc =
     close_positions context_longs can_trade rest
       (if security \<notin> set context_longs \<and> can_trade security
        then (order_target_percent security 0 (fst acc), snd acc @ [security])
        else acc)"

definition rebalance :: "equity list \<Rightarrow> positions \<Rightarrow> (equity \<Rightarrow> bool) \<Rightarrow> trading" where
  "rebalance context_longs my_positions can_trade =
     (let target_long_symbols = map symbol context_longs;
          st0 = log_info (Opening_long_positions long_weight (join '','' target_long_symbols))
                  \<lparr>orders = [], infos = []\<rparr>;
          st1 = open_longs my_positions can_trade context_longs st0;
          (st2, closed_positions) =
             close_positions context_longs can_trade (map fst my_positions) (st1, [])
      in log_info (Closing_positions (join '','' (map symbol closed_positions))) st2)"

text \<open>
  The positions after every order of a rebalancing has been carried out in full:
  a target of 0 removes the position, any other target sets the weight held.
\<close>

fun apply_order :: "equity \<times> real \<Rightarrow> positions \<Rightarrow> positions" where
  "apply_order (s, w) ps =
     (if w = 0 then filter (\<lambda>p. fst p \<noteq> s) ps
      else if s \<in> set (map fst ps) then map (\<lambda>p. if fst p = s then (s, w) else p) ps
      else ps @ [(s, w)])"

definition apply_orders :: "(equity \<times> real) list \<Rightarrow> positions \<Rightarrow> positions" where
  "apply_orders os ps = fold apply_order os ps"

subsection \<open>Example inputs\<close>

definition example_row ::
  "nat \<Rightarrow> string \<Rightarrow> real option \<Rightarrow> real option \<Rightarrow> real option \<Rightarrow> real option \<Rightarrow> security_record" where
  "example_row k ex q v m f =
     \<lparr> asset = \<lparr>sid = k, symbol = ''S''\<rparr>, market_cap = Some 60000000, close_price = Some 2,
       dollar_volume_20 = Some 300000, exchange_id = Some ex,
       roe = q, fcf_yield = v, fcf_per_share = f, ret_20 = m \<rparr>"

definition example_equity :: "nat \<Rightarrow> equity" where
  "example_equity k = \<lparr>sid = k, symbol = ''S''\<rparr>"

definition all_tradable :: "equity \<Rightarrow> bool" where
  "all_tradable s = True"

definition none_tradable :: "equity \<Rightarrow> bool" where
  "none_tradable s = False"

definition two_rows :: "security_record list" where
  "two_rows = [example_row 1 ''NYS'' (Some 1) (Some 1) (Some 1) (Some 1),
               example_row 2 ''NYS'' (Some 2) (Some 2) (Some 2) (Some 1)]"

definition two_rows_other :: "security_record list" where
  "two_rows_other = [example_row 1 ''NYS'' (Some 1) (Some 1) (Some 1) (Some 7),
                     example_row 2 ''NYS'' (Some 2) (Some 2) (Some 2) None]"

definition gap_row :: "security_record list" where
  "gap_row = [example_row 1 ''NYS'' None (Some 1) (Some 1) None]"

definition tie_vals :: "real option list" where
  "tie_vals = [Some 1, Some 2, Some 3, Some 4, Some 5, Some 5, Some 5, Some 8, Some 9, None]"

definition tie_mask :: "bool list" where
  "tie_mask = [True, True, True, True, True, True, True, True, False, True]"


section \<open>The universe screen\<close>

lemma startswith_prefix: "startswith s p \<longleftrightarrow> prefix p s"
  by (induction s p rule: startswith.induct) auto

lemma liq_univ_map: "liq_univ a b c otc tbl = map (passes a b c otc) tbl"
  by (induction tbl)
     (auto simp: liq_univ_def col_gt_def col_and_def col_not_def col_startswith_def
        passes_def startswith_prefix split: option.splits)

lemma length_liq_univ: "length (liq_univ a b c otc tbl) = length tbl"
  by (simp add: liq_univ_map)

lemma passes_antitone:
  "a \<le> a' \<Longrightarrow> b \<le> b' \<Longrightarrow> c \<le> c' \<Longrightarrow> passes a' b' c' otc r \<Longrightarrow> passes a b c otc r"
  by (fastforce simp: passes_def)

lemma length_filter_mono:
  "(\<And>x. x \<in> set xs \<Longrightarrow> P x \<Longrightarrow> Q x) \<Longrightarrow> length (filter P xs) \<le> length (filter Q xs)"
  by (induction xs) auto

text \<open>
  C3. A row of the table is in the universe mask exactly when all four screens hold
  together: market capitalisation above 50,000,000, closing price above 1, 20-day average
  dollar volume above 200,000, and an exchange identifier that does not begin with
  \<open>OTC\<close>. The exchange test is a prefix test: \<open>NOTC\<close> contains \<open>OTC\<close> and passes.
  A missing number fails its screen; a missing exchange identifier begins with nothing.
\<close>

theorem min_liq_univ_iff:
  assumes "i < length tbl"
  shows "min_liq_univ tbl ! i \<longleftrightarrow>
     (\<exists>m. market_cap (tbl ! i) = Some m \<and> 50000000 < m) \<and>
     (\<exists>p. close_price (tbl ! i) = Some p \<and> 1 < p) \<and>
     (\<exists>v. dollar_volume_20 (tbl ! i) = Some v \<and> 200000 < v) \<and>
     \<not> (\<exists>e. exchange_id (tbl ! i) = Some e \<and> prefix ''OTC'' e)"
  using assms by (simp add: min_liq_univ_def liq_univ_map passes_def)

theorem min_liq_univ_iff_witness:
  "0 < length [example_row 1 ''NOTC'' None None None None] \<and>
   min_liq_univ [example_row 1 ''NOTC'' None None None None] ! 0 \<and>
   \<not> min_liq_univ [example_row 2 ''OTCBB'' None None None None] ! 0"
  using min_liq_univ_iff [of 0 "[example_row 1 ''NOTC'' None None None None]"]
    min_liq_univ_iff [of 0 "[example_row 2 ''OTCBB'' None None None None]"]
  by (simp add: example_row_def)

text \<open>
  C9. The mask is antitone in the three thresholds: with a higher minimum market
  capitalisation, price or dollar volume, every row of the tightened mask is a row of
  the looser one, so the number of rows in the mask does not grow. The source's mask is
  the instance at 50000000, 1 and 200000.
\<close>

theorem liq_univ_antitone:
  assumes "a \<le> a'" "b \<le> b'" "c \<le> c'"
  shows "(\<forall>i<length tbl. liq_univ a' b' c' otc tbl ! i \<longrightarrow> liq_univ a b c otc tbl ! i) \<and>
         length (filter id (liq_univ a' b' c' otc tbl)) \<le> length (filter id (liq_univ a b c otc tbl))"
proof -
  have "length (filter (passes a' b' c' otc) tbl) \<le> length (filter (passes a b c otc) tbl)"
    by (rule length_filter_mono) (rule passes_antitone [OF assms])
  then show ?thesis
    using passes_antitone [OF assms] by (simp add: liq_univ_map filter_map o_def)
qed

theorem liq_univ_antitone_witness:
  "(50000000::real) \<le> 70000000 \<and> (1::real) \<le> 1 \<and> (200000::real) \<le> 200000 \<and>
   length (filter id (liq_univ 70000000 1 200000 ''OTC'' [example_row 1 ''NYS'' None None None None]))
     \<le> length (filter id (min_liq_univ [example_row 1 ''NYS'' None None None None])) \<and>
   length (filter id (min_liq_univ [example_row 1 ''NYS'' None None None None])) = 1 \<and>
   length (filter id (liq_univ 70000000 1 200000 ''OTC'' [example_row 1 ''NYS'' None None None None])) = 0"
  using liq_univ_antitone [where a = 50000000 and a' = 70000000 and b = 1 and b' = 1
      and c = 200000 and c' = 200000 and otc = "''OTC''"
      and tbl = "[example_row 1 ''NYS'' None None None None]"]
  by (simp add: min_liq_univ_def liq_univ_map passes_def example_row_def)

section \<open>The average rank\<close>

lemma length_masked: "length (masked vals msk) = min (length vals) (length msk)"
  by (simp add: masked_def)

lemma masked_nth:
  "i < length vals \<Longrightarrow> i < length msk \<Longrightarrow> masked vals msk ! i = (if msk ! i then vals ! i else None)"
  by (simp add: masked_def)

lemma present_set: "x \<in> set (present col) \<longleftrightarrow> Some x \<in> set col"
  by (induction col rule: present.induct) auto

lemma length_filter_present:
  "length (filter (\<lambda>y. y = x) (present col)) = length (filter (\<lambda>v. v = Some x) col)"
  by (induction col rule: present.induct) auto

lemma length_present: "length (present col) = length (filter (\<lambda>v. v \<noteq> None) col)"
  by (induction col rule: present.induct) auto

lemma length_filter_nth:
  "length (filter (\<lambda>k. P (ys ! k)) [0..<length ys]) = length (filter P ys)"
proof -
  have "filter P ys = filter P (map (nth ys) [0..<length ys])"
    by (simp add: map_nth)
  also have "\<dots> = map (nth ys) (filter (\<lambda>k. P (ys ! k)) [0..<length ys])"
    by (simp add: filter_map o_def)
  finally show ?thesis by simp
qed

lemma length_ordinal_positions:
  "length (ordinal_positions xs x) = length (filter (\<lambda>y. y = x) xs)"
proof -
  have "[1..<Suc (length xs)] = map Suc [0..<length (sort xs)]"
    by (simp add: map_Suc_upt)
  then have "length (ordinal_positions xs x) =
      length (filter (\<lambda>k. sort xs ! k = x) [0..<length (sort xs)])"
    by (simp add: ordinal_positions_def filter_map o_def)
  also have "\<dots> = length (filter (\<lambda>y. y = x) (sort xs))"
    by (rule length_filter_nth)
  also have "\<dots> = length (filter (\<lambda>y. y = x) xs)"
    by (simp add: filter_sort)
  finally show ?thesis .
qed

lemma ordinal_positions_bounds:
  "p \<in> set (ordinal_positions xs x) \<Longrightarrow> 1 \<le> p \<and> p \<le> length xs"
  by (auto simp: ordinal_positions_def)

lemma ordinal_positions_nonempty:
  "x \<in> set xs \<Longrightarrow> ordinal_positions xs x \<noteq> []"
proof -
  assume "x \<in> set xs"
  then have "filter (\<lambda>y. y = x) xs \<noteq> []"
    by (auto simp: filter_empty_conv)
  then have "length (ordinal_positions xs x) \<noteq> 0"
    by (simp add: length_ordinal_positions)
  then show ?thesis by auto
qed

lemma sum_list_bounds:
  fixes ps :: "nat list"
  shows "(\<And>p. p \<in> set ps \<Longrightarrow> a \<le> p \<and> p \<le> b) \<Longrightarrow>
     length ps * a \<le> sum_list ps \<and> sum_list ps \<le> length ps * b"
proof (induction ps)
  case Nil then show ?case by simp
next
  case (Cons p ps)
  have "a \<le> p \<and> p \<le> b" using Cons.prems by simp
  moreover have "length ps * a \<le> sum_list ps \<and> sum_list ps \<le> length ps * b"
    using Cons by simp
  ultimately show ?case by simp
qed

lemma average_rank_bounds:
  assumes "x \<in> set xs"
  shows "1 \<le> average_rank xs x \<and> average_rank xs x \<le> real (length xs)"
proof -
  let ?ps = "ordinal_positions xs x"
  have n: "0 < length ?ps"
    using ordinal_positions_nonempty [OF assms] by simp
  have "length ?ps * 1 \<le> sum_list ?ps \<and> sum_list ?ps \<le> length ?ps * length xs"
    by (rule sum_list_bounds) (rule ordinal_positions_bounds)
  then have "real (length ?ps) * 1 \<le> real (sum_list ?ps)"
    and "real (sum_list ?ps) \<le> real (length ?ps) * real (length xs)"
    by (metis of_nat_le_iff of_nat_mult of_nat_1)+
  with n show ?thesis
    by (simp add: average_rank_def pos_le_divide_eq pos_divide_le_eq mult.commute)
qed

lemma length_rank_average:
  "length (rank_average vals msk) = min (length vals) (length msk)"
  by (simp add: rank_average_def Let_def length_masked)

lemma rank_average_nth:
  assumes "i < length vals" "i < length msk"
  shows "rank_average vals msk ! i =
     (if msk ! i then map_option (average_rank (present (masked vals msk))) (vals ! i) else None)"
  using assms
  by (simp add: rank_average_def Let_def length_masked masked_nth split: option.splits)

lemma length_tie_group:
  assumes "length msk = length vals"
  shows "length (tie_group vals msk x) = length (ordinal_positions (present (masked vals msk)) x)"
proof -
  let ?col = "masked vals msk"
  have "tie_group vals msk x = filter (\<lambda>j. ?col ! j = Some x) [0..<length ?col]"
    unfolding tie_group_def using assms
    by (auto intro!: filter_cong simp: length_masked masked_nth split: if_splits)
  then have "length (tie_group vals msk x) = length (filter (\<lambda>v. v = Some x) ?col)"
    using length_filter_nth [of "\<lambda>v. v = Some x" ?col] by simp
  then show ?thesis
    by (simp add: length_ordinal_positions length_filter_present)
qed

text \<open>
  C2. For a column and a mask of the same length, a row in the mask with a value is
  ranked; its rank lies between 1 and the number of participants; it is the arithmetic
  mean of the ordinal positions that its value occupies in the ascending order of the
  participants (their sum divided by the size of the tie group); every row tied with it
  has the same rank; and the ranks of the tie group add up to the sum of those ordinal
  positions.
\<close>

theorem rank_average_tie_mean:
  assumes "length msk = length vals" "i < length vals" "msk ! i" "vals ! i = Some x"
  shows "\<exists>r. rank_average vals msk ! i = Some r \<and>
           1 \<le> r \<and> r \<le> real (length (present (masked vals msk))) \<and>
           r = real (sum_list (ordinal_positions (present (masked vals msk)) x)) /
               real (length (tie_group vals msk x)) \<and>
           (\<forall>j \<in> set (tie_group vals msk x). rank_average vals msk ! j = Some r) \<and>
           (\<Sum>j \<leftarrow> tie_group vals msk x. the (rank_average vals msk ! j)) =
             real (sum_list (ordinal_positions (present (masked vals msk)) x))"
proof -
  let ?xs = "present (masked vals msk)"
  let ?r = "average_rank ?xs x"
  have i: "masked vals msk ! i = Some x"
    using assms by (simp add: masked_nth)
  have "Some x \<in> set (masked vals msk)"
    using assms i by (metis length_masked min.idem nth_mem)
  then have mem: "x \<in> set ?xs" by (simp add: present_set)
  have r: "rank_average vals msk ! i = Some ?r"
    using assms by (simp add: rank_average_nth)
  have tie: "\<forall>j \<in> set (tie_group vals msk x). rank_average vals msk ! j = Some ?r"
    using assms(1) by (auto simp: tie_group_def rank_average_nth)
  have len: "length (tie_group vals msk x) = length (ordinal_positions ?xs x)"
    by (rule length_tie_group [OF assms(1)])
  have pos: "0 < length (ordinal_positions ?xs x)"
    using ordinal_positions_nonempty [OF mem] by simp
  have "(\<Sum>j \<leftarrow> tie_group vals msk x. the (rank_average vals msk ! j)) =
        (\<Sum>j \<leftarrow> tie_group vals msk x. ?r)"
    using tie by (intro arg_cong [where f = sum_list] map_cong) auto
  also have "\<dots> = real (length (tie_group vals msk x)) * ?r"
    by (simp add: sum_list_triv)
  also have "\<dots> = real (sum_list (ordinal_positions ?xs x))"
    using pos by (simp add: len average_rank_def)
  finally have s: "(\<Sum>j \<leftarrow> tie_group vals msk x. the (rank_average vals msk ! j)) =
        real (sum_list (ordinal_positions ?xs x))" .
  show ?thesis
    using r average_rank_bounds [OF mem] tie s
    by (simp add: len average_rank_def)
qed

theorem rank_average_tie_mean_witness:
  "length tie_mask = length tie_vals \<and> 5 < length tie_vals \<and> tie_mask ! 5 \<and>
   tie_vals ! 5 = Some 5 \<and>
   ordinal_positions (present (masked tie_vals tie_mask)) 5 = [5, 6, 7] \<and>
   tie_group tie_vals tie_mask 5 = [4, 5, 6] \<and>
   rank_average tie_vals tie_mask ! 5 = Some 6 \<and>
   (\<Sum>j \<leftarrow> tie_group tie_vals tie_mask 5. the (rank_average tie_vals tie_mask ! j)) = 18"
proof -
  have h: "length tie_mask = length tie_vals" "5 < length tie_vals" "tie_mask ! 5"
    "tie_vals ! 5 = Some 5"
    by (simp_all add: tie_mask_def tie_vals_def)
  have p: "ordinal_positions (present (masked tie_vals tie_mask)) 5 = [5, 6, 7]"
    by (simp add: tie_mask_def tie_vals_def masked_def ordinal_positions_def upt_rec)
  have g: "tie_group tie_vals tie_mask 5 = [4, 5, 6]"
    by (simp add: tie_mask_def tie_vals_def tie_group_def upt_rec)
  show ?thesis
    using rank_average_tie_mean [OF h] h by (auto simp: p g)
qed

section \<open>Selection and the pipeline\<close>

lemma takeWhile_less_iff_take:
  "i \<in> set xs \<Longrightarrow> length (takeWhile (\<lambda>j. j \<noteq> i) xs) < n \<longleftrightarrow> i \<in> set (take n xs)"
proof (induction xs arbitrary: n)
  case Nil then show ?case by simp
next
  case (Cons a xs)
  show ?case
  proof (cases n)
    case 0 then show ?thesis by simp
  next
    case (Suc m)
    show ?thesis
    proof (cases "a = i")
      case True with Suc show ?thesis by simp
    next
      case False
      with Cons.prems have "i \<in> set xs" by simp
      from Cons.IH [OF this, of m] False Suc show ?thesis by auto
    qed
  qed
qed

lemma set_top_order: "set (top_order col) = {i. i < length col \<and> col ! i \<noteq> None}"
  by (auto simp: top_order_def)

lemma distinct_top_order: "distinct (top_order col)"
  by (simp add: top_order_def)

lemma length_top_order: "length (top_order col) = length (filter (\<lambda>v. v \<noteq> None) col)"
  using length_filter_nth [of "\<lambda>v. v \<noteq> None" col] by (simp add: top_order_def)

lemma length_factor_top: "length (factor_top n vals msk) = length (masked vals msk)"
  by (simp add: factor_top_def rank_ordinal_desc_def Let_def)

lemma factor_top_nth:
  assumes "i < length (masked vals msk)"
  shows "factor_top n vals msk ! i \<longleftrightarrow> i \<in> set (take n (top_order (masked vals msk)))"
proof (cases "masked vals msk ! i = None")
  case True
  then have "i \<notin> set (top_order (masked vals msk))" by (simp add: set_top_order)
  then have "i \<notin> set (take n (top_order (masked vals msk)))"
    by (meson in_set_takeD)
  with True assms show ?thesis
    by (simp add: factor_top_def rank_ordinal_desc_def Let_def)
next
  case False
  with assms have "i \<in> set (top_order (masked vals msk))" by (simp add: set_top_order)
  from takeWhile_less_iff_take [OF this, of n]
  have "Suc (length (takeWhile (\<lambda>j. j \<noteq> i) (top_order (masked vals msk)))) \<le> n \<longleftrightarrow>
      i \<in> set (take n (top_order (masked vals msk)))"
    by (simp add: Suc_le_eq)
  moreover have "factor_top n vals msk ! i \<longleftrightarrow>
      Suc (length (takeWhile (\<lambda>j. j \<noteq> i) (top_order (masked vals msk)))) \<le> n"
    using False assms
    by (simp add: factor_top_def rank_ordinal_desc_def Let_def top_order_def del: not_None_eq)
  ultimately show ?thesis by simp
qed

lemma take_top_order_subset:
  "set (take n (top_order col)) \<subseteq> {0..<length col}"
proof
  fix i assume "i \<in> set (take n (top_order col))"
  then have "i \<in> set (top_order col)" by (rule in_set_takeD)
  then show "i \<in> {0..<length col}" by (simp add: set_top_order)
qed

lemma count_factor_top:
  "length (filter (\<lambda>i. factor_top n vals msk ! i) [0..<length (masked vals msk)]) =
     min n (length (filter (\<lambda>v. v \<noteq> None) (masked vals msk)))"
proof -
  let ?col = "masked vals msk"
  let ?t = "take n (top_order ?col)"
  have "filter (\<lambda>i. factor_top n vals msk ! i) [0..<length ?col] =
        filter (\<lambda>i. i \<in> set ?t) [0..<length ?col]"
    by (rule filter_cong) (simp_all add: factor_top_nth)
  then have "length (filter (\<lambda>i. factor_top n vals msk ! i) [0..<length ?col]) =
        card ({i. i \<in> set ?t} \<inter> set [0..<length ?col])"
    by (simp only: distinct_length_filter [OF distinct_upt])
  also have "{i. i \<in> set ?t} \<inter> set [0..<length ?col] = set ?t"
    using take_top_order_subset [of n ?col] by (simp only: Collect_mem_eq set_upt) blast
  also have "card (set ?t) = length ?t"
    by (rule distinct_card) (simp add: distinct_top_order)
  finally show ?thesis by (simp add: length_top_order)
qed

lemma rank_average_None_iff:
  "i < length vals \<Longrightarrow> i < length msk \<Longrightarrow>
     rank_average vals msk ! i = None \<longleftrightarrow> \<not> msk ! i \<or> vals ! i = None"
  by (simp add: rank_average_nth)

lemma col_add_nth:
  "i < length a \<Longrightarrow> i < length b \<Longrightarrow> col_add a b ! i = add_opt (a ! i) (b ! i)"
  by (simp add: col_add_def)

lemma length_col_add: "length (col_add a b) = min (length a) (length b)"
  by (simp add: col_add_def)

lemma add_opt_None_iff: "add_opt a b = None \<longleftrightarrow> a = None \<or> b = None"
  by (cases a; cases b) auto

lemma length_min_liq_univ: "length (min_liq_univ tbl) = length tbl"
  by (simp add: min_liq_univ_def length_liq_univ)

lemma pipeline_cols:
  "col_quality (make_pipeline tbl) = rank_average (map roe tbl) (min_liq_univ tbl)"
  "col_value (make_pipeline tbl) = rank_average (map fcf_yield tbl) (min_liq_univ tbl)"
  "col_momentum (make_pipeline tbl) = rank_average (map ret_20 tbl) (min_liq_univ tbl)"
  "col_qvm (make_pipeline tbl) =
     rank_average (col_add (col_add (col_quality (make_pipeline tbl)) (col_value (make_pipeline tbl)))
                     (col_momentum (make_pipeline tbl))) (min_liq_univ tbl)"
  "col_long_10 (make_pipeline tbl) = factor_top 10 (col_qvm (make_pipeline tbl)) (min_liq_univ tbl)"
  "screen (make_pipeline tbl) = min_liq_univ tbl"
  "col_fcf_yield_manual (make_pipeline tbl) =
     map (\<lambda>r. div_opt (fcf_per_share r) (close_price r)) tbl"
  by (simp_all add: make_pipeline_def Let_def col_div_def zip_map_map zip_same_conv_map)

lemma length_pipeline_cols:
  "length (col_quality (make_pipeline tbl)) = length tbl"
  "length (col_value (make_pipeline tbl)) = length tbl"
  "length (col_momentum (make_pipeline tbl)) = length tbl"
  "length (col_qvm (make_pipeline tbl)) = length tbl"
  "length (col_long_10 (make_pipeline tbl)) = length tbl"
  by (simp_all add: pipeline_cols length_rank_average length_col_add length_min_liq_univ
        length_factor_top length_masked)

lemma qvm_None_iff:
  assumes "i < length tbl"
  shows "col_qvm (make_pipeline tbl) ! i = None \<longleftrightarrow>
     \<not> min_liq_univ tbl ! i \<or> roe (tbl ! i) = None \<or> fcf_yield (tbl ! i) = None \<or>
     ret_20 (tbl ! i) = None"
proof -
  have q: "col_quality (make_pipeline tbl) ! i = None \<longleftrightarrow>
      \<not> min_liq_univ tbl ! i \<or> roe (tbl ! i) = None"
    using assms by (simp add: pipeline_cols(1) rank_average_None_iff length_min_liq_univ)
  have v: "col_value (make_pipeline tbl) ! i = None \<longleftrightarrow>
      \<not> min_liq_univ tbl ! i \<or> fcf_yield (tbl ! i) = None"
    using assms by (simp add: pipeline_cols(2) rank_average_None_iff length_min_liq_univ)
  have m: "col_momentum (make_pipeline tbl) ! i = None \<longleftrightarrow>
      \<not> min_liq_univ tbl ! i \<or> ret_20 (tbl ! i) = None"
    using assms by (simp add: pipeline_cols(3) rank_average_None_iff length_min_liq_univ)
  have "col_qvm (make_pipeline tbl) ! i = None \<longleftrightarrow> \<not> min_liq_univ tbl ! i \<or>
      col_quality (make_pipeline tbl) ! i = None \<or> col_value (make_pipeline tbl) ! i = None \<or>
      col_momentum (make_pipeline tbl) ! i = None"
    using assms
    by (subst pipeline_cols(4))
       (simp add: rank_average_None_iff length_col_add length_pipeline_cols length_min_liq_univ
          col_add_nth add_opt_None_iff)
  with q v m show ?thesis by simp
qed

lemma masked_qvm_None_iff:
  assumes "i < length tbl"
  shows "masked (col_qvm (make_pipeline tbl)) (min_liq_univ tbl) ! i = None \<longleftrightarrow>
     \<not> (min_liq_univ tbl ! i \<and> roe (tbl ! i) \<noteq> None \<and> fcf_yield (tbl ! i) \<noteq> None \<and>
        ret_20 (tbl ! i) \<noteq> None)"
  using assms qvm_None_iff [OF assms]
  by (simp add: masked_nth length_pipeline_cols length_min_liq_univ)

lemma length_masked_qvm:
  "length (masked (col_qvm (make_pipeline tbl)) (min_liq_univ tbl)) = length tbl"
  by (simp add: length_masked length_pipeline_cols length_min_liq_univ)

lemma long_10_imp:
  assumes "i < length tbl" "col_long_10 (make_pipeline tbl) ! i"
  shows "min_liq_univ tbl ! i \<and> roe (tbl ! i) \<noteq> None \<and> fcf_yield (tbl ! i) \<noteq> None \<and>
        ret_20 (tbl ! i) \<noteq> None"
proof -
  let ?col = "masked (col_qvm (make_pipeline tbl)) (min_liq_univ tbl)"
  have "i \<in> set (take 10 (top_order ?col))"
    using assms by (simp add: pipeline_cols(5) factor_top_nth length_masked_qvm)
  then have "i \<in> set (top_order ?col)" by (rule in_set_takeD)
  then have "?col ! i \<noteq> None" by (simp add: set_top_order)
  then show ?thesis using masked_qvm_None_iff [OF assms(1)] by simp
qed

lemma long_rows_eq:
  "long_rows tbl = filter (\<lambda>i. col_long_10 (make_pipeline tbl) ! i) [0..<length tbl]"
  unfolding long_rows_def output_rows_def filter_filter
  by (rule filter_cong) (auto simp: pipeline_cols(6) dest: long_10_imp)

lemma length_long_rows: "length (long_rows tbl) = min 10 (length (rankable_rows tbl))"
proof -
  let ?col = "masked (col_qvm (make_pipeline tbl)) (min_liq_univ tbl)"
  have "length (long_rows tbl) = min 10 (length (filter (\<lambda>v. v \<noteq> None) ?col))"
    using count_factor_top [of 10 "col_qvm (make_pipeline tbl)" "min_liq_univ tbl"]
    by (simp add: long_rows_eq pipeline_cols(5) length_masked_qvm)
  also have "length (filter (\<lambda>v. v \<noteq> None) ?col) =
      length (filter (\<lambda>i. ?col ! i \<noteq> None) [0..<length ?col])"
    using length_filter_nth [of "\<lambda>v. v \<noteq> None" ?col] by simp
  also have "filter (\<lambda>i. ?col ! i \<noteq> None) [0..<length ?col] = rankable_rows tbl"
    unfolding rankable_rows_def length_masked_qvm
    by (rule filter_cong) (simp_all add: masked_qvm_None_iff)
  finally show ?thesis .
qed

lemma composite_raw_nth:
  assumes "i < length tbl"
  shows "composite_raw tbl ! i =
     add_opt (add_opt (col_quality (make_pipeline tbl) ! i) (col_value (make_pipeline tbl) ! i))
       (col_momentum (make_pipeline tbl) ! i)"
  using assms by (simp add: composite_raw_def col_add_nth length_col_add length_pipeline_cols)

text \<open>
  C1. The composite score is computed in two stages. The three factor columns are the
  average ranks of return on equity, free-cash-flow yield and 20-day return under the
  universe mask; the raw composite of a row is the unweighted sum of its three ranks;
  the composite rank is the average rank of the raw composite under the same mask; and
  the selection is the top 10 of that composite rank under the same mask.
\<close>

theorem composite_two_stage:
  "col_quality (make_pipeline tbl) = rank_average (map roe tbl) (min_liq_univ tbl) \<and>
   col_value (make_pipeline tbl) = rank_average (map fcf_yield tbl) (min_liq_univ tbl) \<and>
   col_momentum (make_pipeline tbl) = rank_average (map ret_20 tbl) (min_liq_univ tbl) \<and>
   (\<forall>i<length tbl. \<forall>a b c.
      col_quality (make_pipeline tbl) ! i = Some a \<longrightarrow>
      col_value (make_pipeline tbl) ! i = Some b \<longrightarrow>
      col_momentum (make_pipeline tbl) ! i = Some c \<longrightarrow>
      composite_raw tbl ! i = Some (a + b + c)) \<and>
   col_qvm (make_pipeline tbl) = rank_average (composite_raw tbl) (min_liq_univ tbl) \<and>
   col_long_10 (make_pipeline tbl) = factor_top 10 (col_qvm (make_pipeline tbl)) (min_liq_univ tbl) \<and>
   longs tbl = map (\<lambda>i. asset (tbl ! i))
                 (filter (\<lambda>i. col_long_10 (make_pipeline tbl) ! i) [0..<length tbl])"
proof -
  have "col_qvm (make_pipeline tbl) = rank_average (composite_raw tbl) (min_liq_univ tbl)"
    unfolding composite_raw_def by (rule pipeline_cols(4))
  then show ?thesis
    by (simp add: pipeline_cols(1,2,3,5) composite_raw_nth longs_def long_rows_eq)
qed

lemma min_liq_univ_two_rows: "min_liq_univ two_rows = [True, True]"
  by (simp add: two_rows_def min_liq_univ_def liq_univ_map passes_def example_row_def)

lemma rank_average_12:
  "rank_average [Some 1, Some 2] [True, True] = [Some 1, Some 2]"
  by (simp add: rank_average_def masked_def average_rank_def ordinal_positions_def upt_rec)

lemma rank_average_36:
  "rank_average [Some 3, Some 6] [True, True] = [Some 1, Some 2]"
  by (simp add: rank_average_def masked_def average_rank_def ordinal_positions_def upt_rec)

theorem composite_two_stage_witness:
  "composite_raw two_rows = [Some 3, Some 6] \<and>
   col_qvm (make_pipeline two_rows) = [Some 1, Some 2] \<and>
   col_qvm (make_pipeline two_rows) = rank_average (composite_raw two_rows) (min_liq_univ two_rows)"
proof -
  have q: "col_quality (make_pipeline two_rows) = [Some 1, Some 2]"
    unfolding pipeline_cols(1) min_liq_univ_two_rows
    by (simp add: two_rows_def example_row_def rank_average_12)
  have v: "col_value (make_pipeline two_rows) = [Some 1, Some 2]"
    unfolding pipeline_cols(2) min_liq_univ_two_rows
    by (simp add: two_rows_def example_row_def rank_average_12)
  have m: "col_momentum (make_pipeline two_rows) = [Some 1, Some 2]"
    unfolding pipeline_cols(3) min_liq_univ_two_rows
    by (simp add: two_rows_def example_row_def rank_average_12)
  have c: "composite_raw two_rows = [Some 3, Some 6]"
    by (simp add: composite_raw_def q v m col_add_def)
  show ?thesis
    using composite_two_stage [of two_rows]
    by (simp add: c min_liq_univ_two_rows rank_average_36)
qed

lemma set_long_rows: "set (long_rows tbl) \<subseteq> set (output_rows tbl)"
  by (auto simp: long_rows_def)

lemma rankable_rows_subset: "set (rankable_rows tbl) \<subseteq> set (output_rows tbl)"
  by (auto simp: rankable_rows_def output_rows_def pipeline_cols(6))

lemma length_rankable_le: "length (rankable_rows tbl) \<le> length (output_rows tbl)"
  unfolding rankable_rows_def output_rows_def pipeline_cols(6)
  by (rule length_filter_mono) simp

lemma min_liq_univ_gap_row: "min_liq_univ gap_row = [True]"
  by (simp add: gap_row_def min_liq_univ_def liq_univ_map passes_def example_row_def)

text \<open>
  C5, as stated, fails on the cardinality: a row of the mask without a return on equity
  has no composite rank and is not selected, so a mask of one such row gives an empty
  selection, not one of min(10, 1) = 1 securities.
\<close>

theorem selection_count_counterexample:
  "length (security_list gap_row) = 1 \<and> length (longs gap_row) = 0 \<and>
   length (longs gap_row) \<noteq> min 10 (length (security_list gap_row))"
proof -
  have "rankable_rows gap_row = []"
    by (simp add: rankable_rows_def gap_row_def example_row_def)
  then have "length (longs gap_row) = 0"
    by (simp add: longs_def length_long_rows)
  moreover have "length (security_list gap_row) = 1"
    by (simp add: security_list_def output_rows_def pipeline_cols(6) min_liq_univ_gap_row)
       (simp add: gap_row_def)
  ultimately show ?thesis by simp
qed

text \<open>
  C5, amended. The selection is a subset of the universe mask, without repetition, and
  its size is the minimum of 10 and the number of rows of the mask whose three base
  factors are all present; that number is at most the size of the mask, and when no row
  of the mask lacks a factor the size of the selection is min(10, size of the mask).
\<close>

theorem selection_subset_count:
  "set (longs tbl) \<subseteq> set (security_list tbl) \<and>
   set (long_rows tbl) \<subseteq> {i. i < length tbl \<and> min_liq_univ tbl ! i} \<and>
   distinct (long_rows tbl) \<and>
   length (longs tbl) = min 10 (length (rankable_rows tbl)) \<and>
   length (rankable_rows tbl) \<le> length (security_list tbl) \<and>
   ((\<forall>i<length tbl. min_liq_univ tbl ! i \<longrightarrow>
        roe (tbl ! i) \<noteq> None \<and> fcf_yield (tbl ! i) \<noteq> None \<and> ret_20 (tbl ! i) \<noteq> None) \<longrightarrow>
    length (longs tbl) = min 10 (length (security_list tbl)))"
proof -
  have 1: "set (longs tbl) \<subseteq> set (security_list tbl)"
    using set_long_rows [of tbl] by (auto simp: longs_def security_list_def)
  have 2: "set (long_rows tbl) \<subseteq> {i. i < length tbl \<and> min_liq_univ tbl ! i}"
    using set_long_rows [of tbl] by (auto simp: output_rows_def pipeline_cols(6))
  have 3: "distinct (long_rows tbl)"
    by (simp add: long_rows_def output_rows_def)
  have 4: "length (longs tbl) = min 10 (length (rankable_rows tbl))"
    by (simp add: longs_def length_long_rows)
  have 5: "length (rankable_rows tbl) \<le> length (security_list tbl)"
    by (simp add: security_list_def length_rankable_le)
  have 6: "length (longs tbl) = min 10 (length (security_list tbl))"
    if "\<forall>i<length tbl. min_liq_univ tbl ! i \<longrightarrow>
        roe (tbl ! i) \<noteq> None \<and> fcf_yield (tbl ! i) \<noteq> None \<and> ret_20 (tbl ! i) \<noteq> None"
  proof -
    have "rankable_rows tbl = output_rows tbl"
      unfolding rankable_rows_def output_rows_def pipeline_cols(6)
      by (rule filter_cong) (use that in auto)
    then show ?thesis by (simp add: 4 security_list_def)
  qed
  from 1 2 3 4 5 6 show ?thesis by blast
qed

theorem selection_subset_count_witness:
  "length (longs two_rows) = 2 \<and> length (security_list two_rows) = 2 \<and>
   length (longs gap_row) = min 10 (length (rankable_rows gap_row)) \<and>
   length (rankable_rows gap_row) = 0"
proof -
  have s: "length (security_list two_rows) = 2"
    by (simp add: security_list_def output_rows_def pipeline_cols(6) min_liq_univ_two_rows)
       (simp add: two_rows_def upt_rec)
  have c: "\<forall>i<length two_rows. min_liq_univ two_rows ! i \<longrightarrow>
      roe (two_rows ! i) \<noteq> None \<and> fcf_yield (two_rows ! i) \<noteq> None \<and> ret_20 (two_rows ! i) \<noteq> None"
    by (simp add: two_rows_def example_row_def less_Suc_eq)
  have g: "length (rankable_rows gap_row) = 0"
    by (simp add: rankable_rows_def gap_row_def example_row_def)
  have "length (longs two_rows) = min 10 (length (security_list two_rows))"
    using selection_subset_count [of two_rows] c by blast
  then have t: "length (longs two_rows) = 2"
    by (simp add: s)
  have "length (longs gap_row) = min 10 (length (rankable_rows gap_row))"
    using selection_subset_count [of gap_row] by blast
  with t s g show ?thesis by blast
qed

text \<open>
  C10. A row that is in the universe mask and lacks any one of return on equity,
  free-cash-flow yield or 20-day return has no composite rank and is not in the top 10:
  its \<^verbatim>\<open>long_10\<close> entry is false and it is not among the selected rows; when the
  assets of the table are distinct, its asset is not among the selected securities.
\<close>

theorem null_factor_unselected:
  assumes "i < length tbl" "min_liq_univ tbl ! i"
    "roe (tbl ! i) = None \<or> fcf_yield (tbl ! i) = None \<or> ret_20 (tbl ! i) = None"
  shows "col_qvm (make_pipeline tbl) ! i = None \<and>
         \<not> col_long_10 (make_pipeline tbl) ! i \<and>
         i \<notin> set (long_rows tbl) \<and>
         (distinct (map asset tbl) \<longrightarrow> asset (tbl ! i) \<notin> set (longs tbl))"
proof -
  have 1: "col_qvm (make_pipeline tbl) ! i = None"
    using assms by (simp add: qvm_None_iff)
  have 2: "\<not> col_long_10 (make_pipeline tbl) ! i"
    using long_10_imp [OF assms(1)] assms(3) by auto
  have 3: "i \<notin> set (long_rows tbl)"
    using 2 by (simp add: long_rows_eq)
  have 4: "asset (tbl ! i) \<notin> set (longs tbl)" if d: "distinct (map asset tbl)"
  proof
    assume "asset (tbl ! i) \<in> set (longs tbl)"
    then obtain j where j: "j \<in> set (long_rows tbl)" "asset (tbl ! j) = asset (tbl ! i)"
      by (auto simp: longs_def)
    then have "j < length tbl" by (simp add: long_rows_eq)
    with j(2) assms(1) d have "j = i"
      by (metis length_map nth_eq_iff_index_eq nth_map)
    with j(1) 3 show False by simp
  qed
  from 1 2 3 4 show ?thesis by blast
qed

theorem null_factor_unselected_witness:
  "0 < length gap_row \<and> min_liq_univ gap_row ! 0 \<and> roe (gap_row ! 0) = None \<and>
   distinct (map asset gap_row) \<and>
   col_qvm (make_pipeline gap_row) ! 0 = None \<and>
   \<not> col_long_10 (make_pipeline gap_row) ! 0 \<and>
   asset (gap_row ! 0) \<notin> set (longs gap_row)"
proof -
  have h: "0 < length gap_row" "min_liq_univ gap_row ! 0"
    "roe (gap_row ! 0) = None \<or> fcf_yield (gap_row ! 0) = None \<or> ret_20 (gap_row ! 0) = None"
    by (simp_all add: min_liq_univ_gap_row) (simp_all add: gap_row_def example_row_def)
  have d: "distinct (map asset gap_row)" "roe (gap_row ! 0) = None"
    by (simp_all add: gap_row_def example_row_def)
  show ?thesis
    using null_factor_unselected [OF h] h(1,2) d by blast
qed

lemma map_field_eq:
  assumes "map (\<lambda>r. r\<lparr>fcf_per_share := None\<rparr>) t1 = map (\<lambda>r. r\<lparr>fcf_per_share := None\<rparr>) t2"
    and "\<And>r. f (r\<lparr>fcf_per_share := None\<rparr>) = f r"
  shows "map f t1 = map f t2"
proof -
  have "map f t = map f (map (\<lambda>r. r\<lparr>fcf_per_share := None\<rparr>) t)" for t
    by (simp add: assms(2) o_def)
  then show ?thesis using assms(1) by metis
qed

lemma longs_via_assets:
  "longs tbl = map (nth (map asset tbl))
     (filter (\<lambda>i. col_long_10 (make_pipeline tbl) ! i) [0..<length (map asset tbl)])"
  by (simp add: longs_def long_rows_eq)

lemma pipeline_ranks_cong:
  assumes "map market_cap t1 = map market_cap t2" "map close_price t1 = map close_price t2"
    "map dollar_volume_20 t1 = map dollar_volume_20 t2" "map exchange_id t1 = map exchange_id t2"
    "map roe t1 = map roe t2" "map fcf_yield t1 = map fcf_yield t2" "map ret_20 t1 = map ret_20 t2"
  shows "min_liq_univ t1 = min_liq_univ t2"
    and "col_quality (make_pipeline t1) = col_quality (make_pipeline t2)"
    and "col_value (make_pipeline t1) = col_value (make_pipeline t2)"
    and "col_momentum (make_pipeline t1) = col_momentum (make_pipeline t2)"
    and "col_qvm (make_pipeline t1) = col_qvm (make_pipeline t2)"
    and "col_long_10 (make_pipeline t1) = col_long_10 (make_pipeline t2)"
proof -
  show u: "min_liq_univ t1 = min_liq_univ t2"
    by (simp add: min_liq_univ_def liq_univ_def assms)
  show q: "col_quality (make_pipeline t1) = col_quality (make_pipeline t2)"
    by (simp add: pipeline_cols(1) u assms)
  show v: "col_value (make_pipeline t1) = col_value (make_pipeline t2)"
    by (simp add: pipeline_cols(2) u assms)
  show m: "col_momentum (make_pipeline t1) = col_momentum (make_pipeline t2)"
    by (simp add: pipeline_cols(3) u assms)
  show c: "col_qvm (make_pipeline t1) = col_qvm (make_pipeline t2)"
    by (simp only: pipeline_cols(4) [of t1] pipeline_cols(4) [of t2] u q v m)
  show "col_long_10 (make_pipeline t1) = col_long_10 (make_pipeline t2)"
    by (simp only: pipeline_cols(5) u c)
qed

text \<open>
  C7. The manual value factor does not reach the ranks or the selection: two tables
  that agree on everything but the free cash flow per share have the same three factor
  ranks, the same composite rank, the same \<^verbatim>\<open>long_10\<close> column and the same selected
  securities. The manual value stays an output column: free cash flow per share divided
  by the closing price, row by row.
\<close>

theorem manual_value_noninterference:
  assumes "map (\<lambda>r. r\<lparr>fcf_per_share := None\<rparr>) t1 = map (\<lambda>r. r\<lparr>fcf_per_share := None\<rparr>) t2"
  shows "col_quality (make_pipeline t1) = col_quality (make_pipeline t2) \<and>
         col_value (make_pipeline t1) = col_value (make_pipeline t2) \<and>
         col_momentum (make_pipeline t1) = col_momentum (make_pipeline t2) \<and>
         col_qvm (make_pipeline t1) = col_qvm (make_pipeline t2) \<and>
         col_long_10 (make_pipeline t1) = col_long_10 (make_pipeline t2) \<and>
         longs t1 = longs t2 \<and>
         col_fcf_yield_manual (make_pipeline t1) =
           map (\<lambda>r. div_opt (fcf_per_share r) (close_price r)) t1"
proof -
  note f = map_field_eq [OF assms]
  have a: "map asset t1 = map asset t2" by (rule f) simp
  note r = pipeline_ranks_cong [of t1 t2, OF f f f f f f f, simplified]
  have "longs t1 = longs t2"
    by (simp only: longs_via_assets a r(6))
  with r show ?thesis by (simp add: pipeline_cols(7))
qed

theorem manual_value_noninterference_witness:
  "map (\<lambda>r. r\<lparr>fcf_per_share := None\<rparr>) two_rows = map (\<lambda>r. r\<lparr>fcf_per_share := None\<rparr>) two_rows_other \<and>
   col_qvm (make_pipeline two_rows) = col_qvm (make_pipeline two_rows_other) \<and>
   longs two_rows = longs two_rows_other \<and>
   col_fcf_yield_manual (make_pipeline two_rows) = [Finite (1 / 2), Finite (1 / 2)] \<and>
   col_fcf_yield_manual (make_pipeline two_rows_other) = [Finite (7 / 2), Nan]"
proof -
  have h: "map (\<lambda>r. r\<lparr>fcf_per_share := None\<rparr>) two_rows =
           map (\<lambda>r. r\<lparr>fcf_per_share := None\<rparr>) two_rows_other"
    by (simp add: two_rows_def two_rows_other_def example_row_def)
  have "col_fcf_yield_manual (make_pipeline two_rows) = [Finite (1 / 2), Finite (1 / 2)]"
    by (simp add: pipeline_cols(7) two_rows_def example_row_def)
  moreover have "col_fcf_yield_manual (make_pipeline two_rows_other) = [Finite (7 / 2), Nan]"
    by (simp add: pipeline_cols(7) two_rows_other_def example_row_def)
  ultimately show ?thesis
    using manual_value_noninterference [OF h] h by simp
qed

section \<open>Rebalancing\<close>

lemma orders_open_longs:
  "orders (open_longs mp ct ss st) =
     orders st @ map (\<lambda>s. (s, long_weight)) (filter (\<lambda>s. ct s \<and> \<not> held mp s) ss)"
  by (induction ss arbitrary: st) (auto simp: order_target_percent_def log_info_def)

lemma orders_close_positions:
  "orders (fst (close_positions cl ct ss acc)) =
     orders (fst acc) @ map (\<lambda>s. (s, 0)) (filter (\<lambda>s. s \<notin> set cl \<and> ct s) ss)"
  by (induction ss arbitrary: acc) (auto simp: order_target_percent_def)

lemma orders_rebalance:
  "orders (rebalance cl mp ct) =
     map (\<lambda>s. (s, long_weight)) (filter (\<lambda>s. ct s \<and> \<not> held mp s) cl) @
     map (\<lambda>s. (s, 0)) (filter (\<lambda>s. s \<notin> set cl \<and> ct s) (map fst mp))"
  by (simp add: rebalance_def Let_def split_beta log_info_def orders_close_positions orders_open_longs)

lemma long_weight_nonzero: "long_weight \<noteq> 0"
  by (simp add: long_weight_def)

text \<open>
  C4, as stated, fails: a selected security that is held at a weight other than the
  target is not ordered again. Here security 1 is selected, tradable and held at 0.05,
  and the rebalancing places no order.
\<close>

theorem rebalance_open_counterexample:
  "example_equity 1 \<in> set [example_equity 1] \<and>
   map_of [(example_equity 1, 1 / 20)] (example_equity 1) \<noteq> Some long_weight \<and>
   all_tradable (example_equity 1) \<and>
   (example_equity 1, long_weight)
     \<notin> set (orders (rebalance [example_equity 1] [(example_equity 1, 1 / 20)] all_tradable))"
  by (simp add: orders_rebalance held_def long_weight_def all_tradable_def)

text \<open>
  C4, amended. For a selected security, the rebalancing places an order exactly when
  the security can be traded and is not held, whatever the weight of a holding, and
  the order is then at the target weight 0.1. A selected security that is held, or
  that cannot be traded, gets no order of any weight.
\<close>

theorem rebalance_open_iff:
  assumes "s \<in> set cl"
  shows "(s, w) \<in> set (orders (rebalance cl mp ct)) \<longleftrightarrow> w = long_weight \<and> ct s \<and> \<not> held mp s"
  using assms by (auto simp: orders_rebalance)

theorem rebalance_open_iff_witness:
  "example_equity 1 \<in> set [example_equity 1] \<and>
   (example_equity 1, long_weight) \<in> set (orders (rebalance [example_equity 1] [] all_tradable)) \<and>
   (example_equity 1, long_weight) \<notin> set (orders (rebalance [example_equity 1] [] none_tradable)) \<and>
   long_weight = 1 / 10"
  using rebalance_open_iff [of "example_equity 1" "[example_equity 1]" long_weight "[]" all_tradable]
    rebalance_open_iff [of "example_equity 1" "[example_equity 1]" long_weight "[]" none_tradable]
  by (simp add: held_def all_tradable_def none_tradable_def long_weight_def)

text \<open>
  C6. For a held security that is not selected, the rebalancing places an order exactly
  when the security can be traded, and the order is then the closing one, at target
  weight 0. A held security that cannot be traded gets no order. The rebalancing is a
  total function: it has no failing branch.
\<close>

theorem rebalance_close_iff:
  assumes "held mp s" "s \<notin> set cl"
  shows "(s, w) \<in> set (orders (rebalance cl mp ct)) \<longleftrightarrow> w = 0 \<and> ct s"
  using assms by (auto simp: orders_rebalance held_def)

theorem rebalance_close_iff_witness:
  "held [(example_equity 2, 1 / 10)] (example_equity 2) \<and>
   example_equity 2 \<notin> set [example_equity 1] \<and>
   (example_equity 2, 0) \<in> set (orders (rebalance [example_equity 1] [(example_equity 2, 1 / 10)] all_tradable)) \<and>
   (example_equity 2, 0) \<notin> set (orders (rebalance [example_equity 1] [(example_equity 2, 1 / 10)] none_tradable))"
  using rebalance_close_iff [of "[(example_equity 2, 1 / 10)]" "example_equity 2" "[example_equity 1]" 0 all_tradable]
    rebalance_close_iff [of "[(example_equity 2, 1 / 10)]" "example_equity 2" "[example_equity 1]" 0 none_tradable]
  by (simp add: held_def example_equity_def all_tradable_def none_tradable_def)

lemma map_fst_retarget:
  "map fst (map (\<lambda>p. if fst p = s then (s, w) else p) ps) = map fst ps"
  by (induction ps) auto

lemma held_apply_order:
  "held (apply_order (s, w) ps) t \<longleftrightarrow>
     (if w = 0 then held ps t \<and> t \<noteq> s else t = s \<or> held ps t)"
proof (cases "w = 0")
  case True
  then show ?thesis by (auto simp: held_def)
next
  case False
  show ?thesis
  proof (cases "s \<in> set (map fst ps)")
    case True
    with False have "apply_order (s, w) ps = map (\<lambda>p. if fst p = s then (s, w) else p) ps"
      by simp
    then have "held (apply_order (s, w) ps) t \<longleftrightarrow> held ps t"
      by (simp only: held_def map_fst_retarget)
    moreover have "held ps s" using True by (simp only: held_def)
    ultimately show ?thesis using False by auto
  next
    case False
    with \<open>w \<noteq> 0\<close> show ?thesis by (auto simp: held_def)
  qed
qed

lemma held_fold_open:
  "w \<noteq> 0 \<Longrightarrow> held (fold apply_order (map (\<lambda>s. (s, w)) ss) ps) t \<longleftrightarrow> held ps t \<or> t \<in> set ss"
proof (induction ss arbitrary: ps)
  case Nil then show ?case by simp
next
  case (Cons a ss)
  show ?case
    using Cons.prems by (auto simp add: Cons.IH [OF Cons.prems] held_apply_order simp del: apply_order.simps)
qed

lemma held_fold_close:
  "held (fold apply_order (map (\<lambda>s. (s, 0)) ss) ps) t \<longleftrightarrow> held ps t \<and> t \<notin> set ss"
proof (induction ss arbitrary: ps)
  case Nil then show ?case by simp
next
  case (Cons a ss)
  show ?case
    by (auto simp add: Cons.IH held_apply_order simp del: apply_order.simps)
qed

lemma held_after_rebalance:
  "held (apply_orders (orders (rebalance cl mp ct)) mp) s \<longleftrightarrow>
     (held mp s \<or> (s \<in> set cl \<and> ct s)) \<and> \<not> (held mp s \<and> s \<notin> set cl \<and> ct s)"
  unfolding apply_orders_def orders_rebalance fold_append o_apply
  by (simp only: held_fold_close held_fold_open [OF long_weight_nonzero]) (auto simp: held_def)

lemma held_iff_fst: "held ps s \<longleftrightarrow> s \<in> set (map fst ps)"
  by (simp add: held_def)

text \<open>
  C8. Rebalancing is idempotent: when the orders of one rebalancing have been carried
  out in full on the positions, a second rebalancing with the same selection and the
  same tradability places no order at all. This holds for every tradability predicate,
  in particular when every security can be traded.
\<close>

theorem rebalance_idempotent:
  "orders (rebalance cl (apply_orders (orders (rebalance cl mp ct)) mp) ct) = []"
proof -
  let ?ps = "apply_orders (orders (rebalance cl mp ct)) mp"
  have 1: "filter (\<lambda>s. ct s \<and> \<not> held ?ps s) cl = []"
    by (auto simp: filter_empty_conv held_after_rebalance)
  have 2: "filter (\<lambda>s. s \<notin> set cl \<and> ct s) (map fst ?ps) = []"
    unfolding filter_empty_conv
  proof
    fix s assume "s \<in> set (map fst ?ps)"
    then have "held ?ps s" by (simp only: held_iff_fst)
    then show "\<not> (s \<notin> set cl \<and> ct s)" by (auto simp: held_after_rebalance)
  qed
  show ?thesis
    unfolding orders_rebalance [of cl ?ps] by (simp only: 1 2) simp
qed

theorem rebalance_idempotent_witness:
  "orders (rebalance [example_equity 1] [(example_equity 2, 1 / 10)] all_tradable) =
     [(example_equity 1, long_weight), (example_equity 2, 0)] \<and>
   orders (rebalance [example_equity 1]
     (apply_orders (orders (rebalance [example_equity 1] [(example_equity 2, 1 / 10)] all_tradable))
        [(example_equity 2, 1 / 10)]) all_tradable) = []"
  using rebalance_idempotent [of "[example_equity 1]" "[(example_equity 2, 1 / 10)]" all_tradable]
  by (simp add: orders_rebalance held_def example_equity_def all_tradable_def)

end
